theory Spec2Isabelle
  imports Complex_Main
begin

section \<open>Python values reaching the client\<close>

text \<open>
  The module \<^verbatim>\<open>python_gitlab_plus/gitlab_plus.py\<close> declares one enumeration and one
  class, \<^verbatim>\<open>GitLabClient\<close>, whose methods read attributes of objects handed back by
  the GitLab library. Those attributes are dynamically typed, so the model keeps a small
  universe of Python values: \<^verbatim>\<open>None\<close>, booleans, integers, strings and members of
  the enumeration.
\<close>

datatype GitLabStatus = OPEN | CLOSE | MERGE | LOCKE

fun status_value :: "GitLabStatus \<Rightarrow> string" where
  "status_value OPEN = ''Opened''"
| "status_value CLOSE = ''Closed''"
| "status_value MERGE = ''Merged''"
| "status_value LOCKE = ''Locked''"

datatype pyval =
    PyNone
  | PyBool bool
  | PyInt int
  | PyStr string
  | PyEnum GitLabStatus

text \<open>
  Truth value of an object in a condition. Members of a plain \<^verbatim>\<open>Enum\<close> are always
  true.
\<close>

fun truthy :: "pyval \<Rightarrow> bool" where
  "truthy PyNone = False"
| "truthy (PyBool b) = b"
| "truthy (PyInt i) = (i \<noteq> 0)"
| "truthy (PyStr s) = (s \<noteq> [])"
| "truthy (PyEnum e) = True"

text \<open>
  The operator \<^verbatim>\<open>==\<close>. \<^verbatim>\<open>bool\<close> is a subclass of \<^verbatim>\<open>int\<close>, so
  \<^verbatim>\<open>True == 1\<close>. A plain \<^verbatim>\<open>Enum\<close> member defines no equality of its own and is
  no \<^verbatim>\<open>str\<close>: it equals itself only, whatever its value is.
\<close>

fun py_eq :: "pyval \<Rightarrow> pyval \<Rightarrow> bool" where
  "py_eq (PyBool a) (PyInt b) = ((if a then 1 else 0) = b)"
| "py_eq (PyInt a) (PyBool b) = (a = (if b then 1 else 0))"
| "py_eq a b = (a = b)"

text \<open>The operator \<^verbatim>\<open>in\<close> on a list: some element is equal to the value.\<close>

definition py_in :: "pyval \<Rightarrow> pyval list \<Rightarrow> bool" where
  "py_in v xs = list_ex (py_eq v) xs"

section \<open>The collaborator and the world\<close>

text \<open>
  A merge request as the library returns it. The attributes \<^verbatim>\<open>iid\<close> and
  \<^verbatim>\<open>state\<close> are read without a guard; \<^verbatim>\<open>has_conflicts\<close> and
  \<^verbatim>\<open>detailed_merge_status\<close> are read behind \<^verbatim>\<open>hasattr\<close>, so they are optional
  (\<open>None\<close>: the attribute does not exist).
\<close>

record merge_request =
  iid :: pyval
  state :: pyval
  has_conflicts :: "pyval option"
  detailed_merge_status :: "pyval option"

text \<open>
  What a call into the library can raise: an instance of \<^verbatim>\<open>Exception\<close> (with its
  text), or a \<^verbatim>\<open>BaseException\<close> outside \<^verbatim>\<open>Exception\<close>, which
  \<^verbatim>\<open>except Exception\<close> does not catch.
\<close>

datatype raised = PyException string | PyBaseException string

text \<open>
  The GitLab side, fixed for a run. \<open>auth\<close> answers the k-th authentication made with a
  URL and a token (\<open>None\<close>: it succeeds); \<open>mr_get\<close> answers the k-th fetch of a
  merge request and \<open>mr_latency\<close> is the time that fetch takes; \<open>projects_get\<close>
  looks a project up.
\<close>

record collaborator =
  auth :: "string \<Rightarrow> string option \<Rightarrow> nat \<Rightarrow> raised option"
  projects_get :: "string \<Rightarrow> raised + string"
  mr_get :: "pyval \<Rightarrow> nat \<Rightarrow> raised + merge_request"
  mr_latency :: "nat \<Rightarrow> real"

datatype level = DEBUG | INFO | ERROR

text \<open>
  The effects of the client: the wall clock read by \<^verbatim>\<open>time.time()\<close>, the number of
  authentications and of merge-request fetches made so far, the sleeps taken and the
  levels of the log records written (both oldest first).
\<close>

record world =
  now :: real
  auth_calls :: nat
  fetches :: nat
  sleeps :: "real list"
  logged :: "level list"

datatype error =
    TimeoutError
  | ConflictException
  | ValueError string
  | Propagated raised

definition logger :: "level \<Rightarrow> world \<Rightarrow> world" where
  "logger l w = w\<lparr>logged := logged w @ [l]\<rparr>"

text \<open>
  \<^verbatim>\<open>self.project.mergerequests.get(mr_number)\<close>: one request, which takes its time;
  what it raises propagates.
\<close>

definition get_mr :: "collaborator \<Rightarrow> pyval \<Rightarrow> world \<Rightarrow> (error + merge_request) \<times> world" where
  "get_mr c mr_number w =
     (let w' = w\<lparr>now := now w + mr_latency c (fetches w), fetches := Suc (fetches w)\<rparr>
      in case mr_get c mr_number (fetches w) of
           Inl r \<Rightarrow> (Inl (Propagated r), w')
         | Inr mr \<Rightarrow> (Inr mr, w'))"

text \<open>
  \<^verbatim>\<open>time.sleep(secs)\<close> raises \<^verbatim>\<open>ValueError\<close> on a negative length and otherwise
  lets \<open>secs\<close> seconds pass.
\<close>

definition sleep :: "real \<Rightarrow> world \<Rightarrow> (error + unit) \<times> world" where
  "sleep secs w =
     (if secs < 0 then (Inl (ValueError ''sleep length must be non-negative''), w)
      else (Inr (), w\<lparr>now := now w + secs, sleeps := sleeps w @ [secs]\<rparr>))"

section \<open>Construction of the client\<close>

record client =
  gitlab_url :: string
  gitlab_access_token :: "string option"
  project :: string

text \<open>
  \<^verbatim>\<open>gitlab_access_token or os.environ.get("GITLAB_ACCESS_TOKEN")\<close>: the left operand
  when it is true, that is a non-empty string, and the right operand otherwise.
\<close>

definition token_or_environ :: "string option \<Rightarrow> (string \<rightharpoonup> string) \<Rightarrow> string option" where
  "token_or_environ tok environ =
     (case tok of
        Some s \<Rightarrow> (if s \<noteq> [] then Some s else environ ''GITLAB_ACCESS_TOKEN'')
      | None \<Rightarrow> environ ''GITLAB_ACCESS_TOKEN'')"

text \<open>
  \<^verbatim>\<open>is_connected\<close>, on the URL and token the client holds. One call of
  \<^verbatim>\<open>self.gitlab.auth()\<close>; an \<^verbatim>\<open>Exception\<close> becomes a \<^verbatim>\<open>ValueError\<close> when
  \<open>raise_if_not_connected\<close> is set and a logged \<open>False\<close> otherwise.
\<close>

definition is_connected ::
  "collaborator \<Rightarrow> string \<Rightarrow> string option \<Rightarrow> bool \<Rightarrow> world \<Rightarrow> (error + bool) \<times> world" where
  "is_connected c url tok raise_if_not_connected w =
     (let w' = w\<lparr>auth_calls := Suc (auth_calls w)\<rparr>
      in case auth c url tok (auth_calls w) of
           None \<Rightarrow> (Inr True, logger INFO w')
         | Some (PyException e) \<Rightarrow>
             (if raise_if_not_connected
              then (Inl (ValueError (''Failed to authenticate with GitLab: '' @ e)), w')
              else (Inr False, logger ERROR w'))
         | Some (PyBaseException e) \<Rightarrow> (Inl (Propagated (PyBaseException e)), w'))"

text \<open>\<^verbatim>\<open>GitLabClient.__init__\<close>; \<open>environ\<close> is \<^verbatim>\<open>os.environ\<close>.\<close>

definition init ::
  "collaborator \<Rightarrow> (string \<rightharpoonup> string) \<Rightarrow> string \<Rightarrow> string option \<Rightarrow> string \<Rightarrow> world
     \<Rightarrow> (error + client) \<times> world" where
  "init c environ url tok project_id w =
     (let token = token_or_environ tok environ
      in case is_connected c url token True w of
           (Inl e, w') \<Rightarrow> (Inl e, w')
         | (Inr _, w') \<Rightarrow>
             (case projects_get c project_id of
                Inl r \<Rightarrow> (Inl (Propagated r), w')
              | Inr p \<Rightarrow>
                  (Inr \<lparr>gitlab_url = url, gitlab_access_token = token, project = p\<rparr>, w')))"

section \<open>Status of a merge request\<close>

definition get_mr_status :: "collaborator \<Rightarrow> pyval \<Rightarrow> world \<Rightarrow> (error + pyval) \<times> world" where
  "get_mr_status c mr_number w =
     (case get_mr c mr_number w of
        (Inl e, w') \<Rightarrow> (Inl e, w')
      | (Inr mr, w') \<Rightarrow> (Inr (state mr), w'))"

definition conflict_statuses :: "pyval list" where
  "conflict_statuses = [PyStr ''conflicts'', PyStr ''cannot_be_merged'']"

definition has_merge_conflicts :: "collaborator \<Rightarrow> pyval \<Rightarrow> world \<Rightarrow> (error + bool) \<times> world" where
  "has_merge_conflicts c mr_number w =
     (case get_mr c mr_number w of
        (Inl e, w') \<Rightarrow> (Inl e, w')
      | (Inr mr, w') \<Rightarrow>
          (if (case has_conflicts mr of None \<Rightarrow> False | Some v \<Rightarrow> truthy v)
           then (Inr True, logger ERROR w')
           else if (case detailed_merge_status mr of
                      None \<Rightarrow> False
                    | Some v \<Rightarrow> py_in v conflict_statuses)
           then (Inr True, logger ERROR w')
           else (Inr False, w')))"

definition is_mr_merged :: "collaborator \<Rightarrow> pyval \<Rightarrow> world \<Rightarrow> (error + bool) \<times> world" where
  "is_mr_merged c mr_number w =
     (case get_mr c mr_number w of
        (Inl e, w') \<Rightarrow> (Inl e, w')
      | (Inr mr, w') \<Rightarrow>
          (if py_eq (state mr) (PyEnum MERGE)
           then (Inr True, logger INFO w')
           else (Inr False, logger ERROR w')))"

definition is_mr_open :: "collaborator \<Rightarrow> pyval \<Rightarrow> world \<Rightarrow> (error + bool) \<times> world" where
  "is_mr_open c mr_number w =
     (case get_mr c mr_number w of
        (Inl e, w') \<Rightarrow> (Inl e, w')
      | (Inr mr, w') \<Rightarrow>
          (if py_eq (state mr) (PyEnum OPEN)
           then (Inr True, logger INFO w')
           else (Inr False, logger ERROR w')))"

section \<open>Waiting for a merge request\<close>

definition close_statuses :: "pyval list" where
  "close_statuses = [PyEnum CLOSE, PyEnum MERGE, PyEnum LOCKE]"

text \<open>
  The guard \<^verbatim>\<open>timeout and (time.time() - start_time) > timeout\<close>: a timeout of
  \<^verbatim>\<open>None\<close> or of zero is false, and then the clock is not compared.
\<close>

definition timeout_reached :: "real option \<Rightarrow> real \<Rightarrow> bool" where
  "timeout_reached timeout elapsed =
     (case timeout of None \<Rightarrow> False | Some t \<Rightarrow> t \<noteq> 0 \<and> t < elapsed)"

datatype step = Raised error | Finished | Continue

text \<open>
  One pass through the body of \<^verbatim>\<open>while True\<close>: the timeout guard, the fetch and its
  debug record, the conflict check (which fetches the merge request again), the test of
  the state against \<open>close_statuses\<close>, and the sleep.
\<close>

definition poll_cycle ::
  "collaborator \<Rightarrow> pyval \<Rightarrow> real \<Rightarrow> real option \<Rightarrow> real \<Rightarrow> world \<Rightarrow> step \<times> world" where
  "poll_cycle c mr_number check_interval timeout start_time w =
     (if timeout_reached timeout (now w - start_time) then (Raised TimeoutError, w)
      else case get_mr c mr_number w of
             (Inl e, w1) \<Rightarrow> (Raised e, w1)
           | (Inr mr, w1) \<Rightarrow>
               (case has_merge_conflicts c mr_number (logger DEBUG w1) of
                  (Inl e, w2) \<Rightarrow> (Raised e, w2)
                | (Inr True, w2) \<Rightarrow> (Raised ConflictException, w2)
                | (Inr False, w2) \<Rightarrow>
                    (if py_in (state mr) close_statuses then (Finished, w2)
                     else case sleep check_interval w2 of
                            (Inl e, w3) \<Rightarrow> (Raised e, w3)
                          | (Inr _, w3) \<Rightarrow> (Continue, w3))))"

text \<open>
  The loop, with a bound on the number of passes: \<open>None\<close> says that the bound was
  reached with the loop still polling.
\<close>

fun poll_loop ::
  "nat \<Rightarrow> collaborator \<Rightarrow> pyval \<Rightarrow> real \<Rightarrow> real option \<Rightarrow> real \<Rightarrow> world
     \<Rightarrow> (error + unit) option \<times> world" where
  "poll_loop 0 c mr_number check_interval timeout start_time w = (None, w)"
| "poll_loop (Suc k) c mr_number check_interval timeout start_time w =
     (case poll_cycle c mr_number check_interval timeout start_time w of
        (Raised e, w') \<Rightarrow> (Some (Inl e), w')
      | (Finished, w') \<Rightarrow> (Some (Inr ()), w')
      | (Continue, w') \<Rightarrow> poll_loop k c mr_number check_interval timeout start_time w')"

definition wait_until_mr_finished ::
  "nat \<Rightarrow> collaborator \<Rightarrow> pyval \<Rightarrow> real \<Rightarrow> real option \<Rightarrow> world
     \<Rightarrow> (error + unit) option \<times> world" where
  "wait_until_mr_finished k c mr_number check_interval timeout w =
     (let w0 = logger INFO w
      in poll_loop k c mr_number check_interval timeout (now w0) w0)"

text \<open>
  The world in which the loop begins its pass number \<open>j\<close> (counted from zero), when it
  gets that far: every pass before it has slept and gone round again.
\<close>

fun pass_start ::
  "nat \<Rightarrow> collaborator \<Rightarrow> pyval \<Rightarrow> real \<Rightarrow> real option \<Rightarrow> real \<Rightarrow> world \<Rightarrow> world option" where
  "pass_start 0 c mr_number check_interval timeout start_time w = Some w"
| "pass_start (Suc j) c mr_number check_interval timeout start_time w =
     (case poll_cycle c mr_number check_interval timeout start_time w of
        (Raised e, w') \<Rightarrow> None
      | (Finished, w') \<Rightarrow> None
      | (Continue, w') \<Rightarrow> pass_start j c mr_number check_interval timeout start_time w')"

section \<open>Fixed inputs\<close>

text \<open>
  A snapshot with the given state and conflict signals, a collaborator that accepts every
  authentication, knows every project and answers every fetch at once with the same
  snapshot, and the world before anything has happened. GitLab reports the state of a
  merge request as one of the strings \<^verbatim>\<open>opened\<close>, \<^verbatim>\<open>closed\<close>,
  \<^verbatim>\<open>locked\<close> and \<^verbatim>\<open>merged\<close>.
\<close>

definition snapshot :: "pyval \<Rightarrow> pyval option \<Rightarrow> pyval option \<Rightarrow> merge_request" where
  "snapshot st hc dms =
     \<lparr>iid = PyInt 7, state = st, has_conflicts = hc, detailed_merge_status = dms\<rparr>"

definition steady :: "merge_request \<Rightarrow> collaborator" where
  "steady mr =
     \<lparr>auth = (\<lambda>url tok k. None), projects_get = (\<lambda>p. Inr p),
      mr_get = (\<lambda>n k. Inr mr), mr_latency = (\<lambda>k. 0)\<rparr>"

definition rejecting :: "string \<Rightarrow> collaborator" where
  "rejecting msg =
     \<lparr>auth = (\<lambda>url tok k. Some (PyException msg)), projects_get = (\<lambda>p. Inr p),
      mr_get = (\<lambda>n k. Inl (PyException ''404'')), mr_latency = (\<lambda>k. 0)\<rparr>"

text \<open>
  A collaborator that answers the first \<open>k\<close> fetches with one snapshot and every later
  fetch with another.
\<close>

definition switching :: "nat \<Rightarrow> merge_request \<Rightarrow> merge_request \<Rightarrow> collaborator" where
  "switching k before after =
     \<lparr>auth = (\<lambda>url tok i. None), projects_get = (\<lambda>p. Inr p),
      mr_get = (\<lambda>n i. if i < k then Inr before else Inr after), mr_latency = (\<lambda>i. 0)\<rparr>"

definition world0 :: world where
  "world0 = \<lparr>now = 0, auth_calls = 0, fetches = 0, sleeps = [], logged = []\<rparr>"

section \<open>Equality and membership against constants\<close>

lemma py_eq_enum [simp]: "py_eq v (PyEnum e) = (v = PyEnum e)"
  by (cases v) auto

lemma py_eq_str [simp]: "py_eq v (PyStr s) = (v = PyStr s)"
  by (cases v) auto

lemma py_in_close_statuses:
  "py_in v close_statuses = (v = PyEnum CLOSE \<or> v = PyEnum MERGE \<or> v = PyEnum LOCKE)"
  by (simp add: py_in_def close_statuses_def)

lemma py_in_conflict_statuses:
  "py_in v conflict_statuses = (v = PyStr ''conflicts'' \<or> v = PyStr ''cannot_be_merged'')"
  by (simp add: py_in_def conflict_statuses_def)

section \<open>Effects of the primitive steps\<close>


lemma get_mr_steady:
  "get_mr (steady mr) n w = (Inr mr, w\<lparr>now := now w, fetches := Suc (fetches w)\<rparr>)"
  by (simp add: get_mr_def steady_def)

lemma get_mr_not_timeout: "get_mr c n w \<noteq> (Inl TimeoutError, w')"
  by (auto simp: get_mr_def Let_def split: sum.splits)

lemma has_merge_conflicts_not_timeout: "has_merge_conflicts c n w \<noteq> (Inl TimeoutError, w')"
  by (auto simp: has_merge_conflicts_def get_mr_def Let_def
           split: sum.splits prod.splits if_splits)


lemma sleep_not_timeout: "sleep d w \<noteq> (Inl TimeoutError, w')"
  by (auto simp: sleep_def)

section \<open>Conflict detection\<close>

text \<open>
  Claim C6. Whenever the fetched merge request has the attribute \<^verbatim>\<open>has_conflicts\<close>
  and its value is true, \<open>has_merge_conflicts\<close> returns \<open>True\<close>, whatever
  \<^verbatim>\<open>detailed_merge_status\<close> is and whether it exists at all.
\<close>

theorem has_merge_conflicts_flag_true:
  assumes "get_mr c n w = (Inr mr, w')"
      and "has_conflicts mr = Some v"
      and "truthy v"
  shows "fst (has_merge_conflicts c n w) = Inr True"
  using assms by (simp add: has_merge_conflicts_def)

theorem has_merge_conflicts_flag_true_witness:
  "fst (has_merge_conflicts
          (steady (snapshot (PyStr ''opened'') (Some (PyBool True)) (Some (PyStr ''mergeable''))))
          (PyInt 7) world0) = Inr True
   \<and> fst (has_merge_conflicts
          (steady (snapshot (PyStr ''opened'') (Some (PyBool True)) None))
          (PyInt 7) world0) = Inr True"
proof -
  let ?a = "snapshot (PyStr ''opened'') (Some (PyBool True)) (Some (PyStr ''mergeable''))"
  let ?b = "snapshot (PyStr ''opened'') (Some (PyBool True)) None"
  have "has_conflicts ?a = Some (PyBool True)" "has_conflicts ?b = Some (PyBool True)"
    by (simp_all add: snapshot_def)
  moreover have "truthy (PyBool True)" by simp
  ultimately show ?thesis
    using has_merge_conflicts_flag_true [OF get_mr_steady, of ?a "PyBool True" "PyInt 7" world0]
          has_merge_conflicts_flag_true [OF get_mr_steady, of ?b "PyBool True" "PyInt 7" world0]
    by simp
qed

text \<open>
  Claim C7. When \<^verbatim>\<open>has_conflicts\<close> is missing or false, the result is \<open>True\<close> if
  \<^verbatim>\<open>detailed_merge_status\<close> exists and is \<^verbatim>\<open>conflicts\<close> or
  \<^verbatim>\<open>cannot_be_merged\<close>, and \<open>False\<close> in every other case.
\<close>

theorem has_merge_conflicts_fallback:
  assumes "get_mr c n w = (Inr mr, w')"
      and "has_conflicts mr = None \<or> (\<exists>v. has_conflicts mr = Some v \<and> \<not> truthy v)"
  shows "fst (has_merge_conflicts c n w) =
           Inr (detailed_merge_status mr = Some (PyStr ''conflicts'')
                \<or> detailed_merge_status mr = Some (PyStr ''cannot_be_merged''))"
  using assms
  by (auto simp: has_merge_conflicts_def py_in_conflict_statuses split: option.splits)

theorem has_merge_conflicts_fallback_witness:
  "fst (has_merge_conflicts
          (steady (snapshot (PyStr ''opened'') (Some (PyBool False)) (Some (PyStr ''cannot_be_merged''))))
          (PyInt 7) world0) = Inr True
   \<and> fst (has_merge_conflicts
          (steady (snapshot (PyStr ''opened'') None (Some (PyStr ''conflicts''))))
          (PyInt 7) world0) = Inr True
   \<and> fst (has_merge_conflicts
          (steady (snapshot (PyStr ''opened'') None None))
          (PyInt 7) world0) = Inr False
   \<and> fst (has_merge_conflicts
          (steady (snapshot (PyStr ''opened'') (Some (PyBool False)) (Some (PyStr ''mergeable''))))
          (PyInt 7) world0) = Inr False"
proof -
  let ?a = "snapshot (PyStr ''opened'') (Some (PyBool False)) (Some (PyStr ''cannot_be_merged''))"
  let ?b = "snapshot (PyStr ''opened'') None (Some (PyStr ''conflicts''))"
  let ?c = "snapshot (PyStr ''opened'') None None"
  let ?d = "snapshot (PyStr ''opened'') (Some (PyBool False)) (Some (PyStr ''mergeable''))"
  have a: "has_conflicts ?a = None \<or> (\<exists>v. has_conflicts ?a = Some v \<and> \<not> truthy v)"
    by (simp add: snapshot_def)
  have b: "has_conflicts ?b = None \<or> (\<exists>v. has_conflicts ?b = Some v \<and> \<not> truthy v)"
    by (simp add: snapshot_def)
  have c: "has_conflicts ?c = None \<or> (\<exists>v. has_conflicts ?c = Some v \<and> \<not> truthy v)"
    by (simp add: snapshot_def)
  have d: "has_conflicts ?d = None \<or> (\<exists>v. has_conflicts ?d = Some v \<and> \<not> truthy v)"
    by (simp add: snapshot_def)
  show ?thesis
    using has_merge_conflicts_fallback [OF get_mr_steady a, of "PyInt 7" world0]
          has_merge_conflicts_fallback [OF get_mr_steady b, of "PyInt 7" world0]
          has_merge_conflicts_fallback [OF get_mr_steady c, of "PyInt 7" world0]
          has_merge_conflicts_fallback [OF get_mr_steady d, of "PyInt 7" world0]
    by (simp add: snapshot_def)
qed

section \<open>Classification of the state\<close>

text \<open>
  \<open>is_mr_merged\<close> and \<open>is_mr_open\<close> compare the attribute \<^verbatim>\<open>state\<close> with a member of
  \<open>GitLabStatus\<close>. The comparison holds exactly when the attribute is that member
  itself, and so never when it is a string, which is what \<open>get_mr_status\<close> declares it
  to be (\<^verbatim>\<open>-> str\<close>).
\<close>

lemma is_mr_merged_result:
  "get_mr c n w = (Inr mr, w') \<Longrightarrow> fst (is_mr_merged c n w) = Inr (state mr = PyEnum MERGE)"
  by (simp add: is_mr_merged_def)

lemma is_mr_open_result:
  "get_mr c n w = (Inr mr, w') \<Longrightarrow> fst (is_mr_open c n w) = Inr (state mr = PyEnum OPEN)"
  by (simp add: is_mr_open_def)

lemma is_mr_merged_string_state:
  "get_mr c n w = (Inr mr, w') \<Longrightarrow> state mr = PyStr s \<Longrightarrow> fst (is_mr_merged c n w) = Inr False"
  by (simp add: is_mr_merged_def)

lemma is_mr_open_string_state:
  "get_mr c n w = (Inr mr, w') \<Longrightarrow> state mr = PyStr s \<Longrightarrow> fst (is_mr_open c n w) = Inr False"
  by (simp add: is_mr_open_def)

text \<open>
  Claim C4 asks \<open>is_mr_merged\<close> to return \<open>True\<close> on a merged merge request. On a
  merge request whose state is the string \<^verbatim>\<open>merged\<close> it returns \<open>False\<close>.
\<close>

theorem is_mr_merged_on_merged_string:
  "fst (is_mr_merged
          (steady (snapshot (PyStr ''merged'') (Some (PyBool False)) (Some (PyStr ''not_open''))))
          (PyInt 7) world0) = Inr False"
  by (simp add: is_mr_merged_def get_mr_steady snapshot_def)

text \<open>
  Claim C5 asks \<open>is_mr_open\<close> to return \<open>True\<close> on an open merge request. On a merge
  request whose state is the string \<^verbatim>\<open>opened\<close> it returns \<open>False\<close>.
\<close>

theorem is_mr_open_on_opened_string:
  "fst (is_mr_open
          (steady (snapshot (PyStr ''opened'') (Some (PyBool False)) (Some (PyStr ''mergeable''))))
          (PyInt 7) world0) = Inr False"
  by (simp add: is_mr_open_def get_mr_steady snapshot_def)

section \<open>One pass of the loop\<close>

lemma poll_cycle_timeout:
  "timeout_reached tmo (now w - st) \<Longrightarrow> poll_cycle c n ci tmo st w = (Raised TimeoutError, w)"
  by (simp add: poll_cycle_def)

lemma poll_cycle_not_timeout:
  "\<not> timeout_reached tmo (now w - st) \<Longrightarrow> poll_cycle c n ci tmo st w \<noteq> (Raised TimeoutError, w')"
  by (auto simp: poll_cycle_def get_mr_not_timeout has_merge_conflicts_not_timeout sleep_not_timeout
           split: sum.splits prod.splits if_splits bool.splits)

lemma poll_cycle_zero: "poll_cycle c n ci (Some 0) st w = poll_cycle c n ci None st w"
  by (simp add: poll_cycle_def timeout_reached_def)

text \<open>
  A merge request that stays open, without a conflict signal: the pass fetches twice,
  writes its debug record and sleeps for the interval.
\<close>

lemma poll_cycle_opened:
  "\<not> timeout_reached tmo (now w - st) \<Longrightarrow>
   poll_cycle (steady (snapshot (PyStr ''opened'') None None)) n 10 tmo st w =
     (Continue, w\<lparr>now := now w + 10, fetches := Suc (Suc (fetches w)),
                  sleeps := sleeps w @ [10], logged := logged w @ [DEBUG]\<rparr>)"
  by (simp add: poll_cycle_def get_mr_steady has_merge_conflicts_def
        logger_def snapshot_def py_in_close_statuses sleep_def)

text \<open>The same pass on a merge request that GitLab reports as \<^verbatim>\<open>locked\<close>.\<close>

lemma poll_cycle_locked:
  "poll_cycle (steady (snapshot (PyStr ''locked'') None None)) n 10 None st w =
     (Continue, w\<lparr>now := now w + 10, fetches := Suc (Suc (fetches w)),
                  sleeps := sleeps w @ [10], logged := logged w @ [DEBUG]\<rparr>)"
  by (simp add: poll_cycle_def timeout_reached_def get_mr_steady has_merge_conflicts_def
        logger_def snapshot_def py_in_close_statuses sleep_def)

text \<open>
  The switching collaborator: a pass made while it still answers with an open merge
  request sleeps; a pass made once it answers with a merged, conflicting one raises the
  conflict exception.
\<close>

lemma poll_cycle_switching_before:
  "\<not> timeout_reached tmo (now w - st) \<Longrightarrow> Suc (fetches w) < k \<Longrightarrow>
   poll_cycle (switching k (snapshot (PyStr ''opened'') None None) after) n 10 tmo st w =
     (Continue, w\<lparr>now := now w + 10, fetches := Suc (Suc (fetches w)),
                  sleeps := sleeps w @ [10], logged := logged w @ [DEBUG]\<rparr>)"
  by (simp add: poll_cycle_def get_mr_def switching_def has_merge_conflicts_def
        logger_def snapshot_def py_in_close_statuses sleep_def)

lemma poll_cycle_switching_after:
  "\<not> timeout_reached tmo (now w - st) \<Longrightarrow> k \<le> fetches w \<Longrightarrow>
   poll_cycle (switching k before (snapshot (PyEnum MERGE) (Some (PyBool True)) None)) n ci tmo st w =
     (Raised ConflictException,
      w\<lparr>now := now w, fetches := Suc (Suc (fetches w)), logged := logged w @ [DEBUG, ERROR]\<rparr>)"
  by (simp add: poll_cycle_def get_mr_def switching_def has_merge_conflicts_def
        logger_def snapshot_def)

text \<open>
  For a timeout other than zero, a pass raises \<^verbatim>\<open>TimeoutError\<close> exactly when the time
  elapsed since the start time it is given exceeds the timeout, and then in the world it
  started in.
\<close>

lemma poll_cycle_timeout_iff:
  assumes "t \<noteq> 0"
  shows "(fst (poll_cycle c n ci (Some t) st w) = Raised TimeoutError \<longleftrightarrow> t < now w - st)
         \<and> (t < now w - st \<longrightarrow> poll_cycle c n ci (Some t) st w = (Raised TimeoutError, w))"
proof (cases "t < now w - st")
  case True
  with assms have "timeout_reached (Some t) (now w - st)" by (simp add: timeout_reached_def)
  then have "poll_cycle c n ci (Some t) st w = (Raised TimeoutError, w)"
    by (rule poll_cycle_timeout)
  with True show ?thesis by simp
next
  case False
  then have nt: "\<not> timeout_reached (Some t) (now w - st)" by (simp add: timeout_reached_def)
  have "fst (poll_cycle c n ci (Some t) st w) \<noteq> Raised TimeoutError"
    using poll_cycle_not_timeout [OF nt, of c n ci "snd (poll_cycle c n ci (Some t) st w)"]
    by (cases "poll_cycle c n ci (Some t) st w") auto
  with False show ?thesis by simp
qed

text \<open>A pass ends the loop normally only on a state that is a member of the enumeration.\<close>

lemma poll_cycle_string_state:
  assumes "\<And>k mr. mr_get c n k = Inr mr \<Longrightarrow> \<exists>s. state mr = PyStr s"
  shows "fst (poll_cycle c n ci tmo st w) \<noteq> Finished"
proof (cases "mr_get c n (fetches w)")
  case (Inl r)
  then show ?thesis
    by (simp add: poll_cycle_def get_mr_def)
next
  case (Inr mr)
  with assms obtain s where "state mr = PyStr s" by blast
  then have "\<not> py_in (state mr) close_statuses" by (simp add: py_in_close_statuses)
  with Inr show ?thesis
    by (simp add: poll_cycle_def get_mr_def split: prod.splits sum.splits bool.splits)
qed

section \<open>The loop\<close>

text \<open>A result, once reached, does not depend on the bound.\<close>

lemma poll_loop_more_fuel:
  "poll_loop k c n ci tmo st w = (Some r, w') \<Longrightarrow> poll_loop (k + j) c n ci tmo st w = (Some r, w')"
proof (induction k arbitrary: w)
  case 0
  then show ?case by simp
next
  case (Suc k)
  obtain x w1 where x: "poll_cycle c n ci tmo st w = (x, w1)"
    by (cases "poll_cycle c n ci tmo st w")
  show ?case
  proof (cases x)
    case (Raised e)
    with x Suc.prems show ?thesis by simp
  next
    case Finished
    with x Suc.prems show ?thesis by simp
  next
    case Continue
    with x Suc.prems have "poll_loop k c n ci tmo st w1 = (Some r, w')" by simp
    then have "poll_loop (k + j) c n ci tmo st w1 = (Some r, w')" by (rule Suc.IH)
    with x Continue show ?thesis by simp
  qed
qed

lemma poll_loop_zero: "poll_loop k c n ci (Some 0) st w = poll_loop k c n ci None st w"
  by (induction k arbitrary: w) (simp_all add: poll_cycle_zero split: prod.splits step.splits)

lemma poll_loop_none_not_timeout:
  "poll_loop k c n ci None st w \<noteq> (Some (Inl TimeoutError), w')"
proof (induction k arbitrary: w)
  case 0
  show ?case by simp
next
  case (Suc k)
  have nt: "\<not> timeout_reached None (now w - st)" by (simp add: timeout_reached_def)
  obtain r w1 where r: "poll_cycle c n ci None st w = (r, w1)"
    by (cases "poll_cycle c n ci None st w")
  show ?case
  proof (cases r)
    case (Raised e)
    with r poll_cycle_not_timeout [OF nt, of c n ci w1] have "e \<noteq> TimeoutError" by auto
    with r Raised show ?thesis by simp
  next
    case Finished
    with r show ?thesis by simp
  next
    case Continue
    with r Suc.IH [of w1] show ?thesis by simp
  qed
qed

text \<open>
  When the loop raises \<^verbatim>\<open>TimeoutError\<close>, the guard held in the world it stops in: the
  pass that raises changes nothing.
\<close>

lemma poll_loop_timeout_elapsed:
  "poll_loop k c n ci tmo st w = (Some (Inl TimeoutError), w')
     \<Longrightarrow> timeout_reached tmo (now w' - st)"
proof (induction k arbitrary: w)
  case 0
  then show ?case by simp
next
  case (Suc k)
  obtain r w1 where r: "poll_cycle c n ci tmo st w = (r, w1)"
    by (cases "poll_cycle c n ci tmo st w")
  show ?case
  proof (cases r)
    case (Raised e)
    with r Suc.prems have e: "e = TimeoutError" and w1: "w1 = w'" by simp_all
    show ?thesis
    proof (cases "timeout_reached tmo (now w - st)")
      case True
      with r have "w1 = w" by (simp add: poll_cycle_timeout)
      with w1 True show ?thesis by simp
    next
      case False
      with r Raised e poll_cycle_not_timeout [OF False, of c n ci w1] show ?thesis by simp
    qed
  next
    case Finished
    with r Suc.prems show ?thesis by simp
  next
    case Continue
    with r Suc.prems Suc.IH [of w1] show ?thesis by simp
  qed
qed

text \<open>
  The loop raises \<^verbatim>\<open>TimeoutError\<close> exactly when, within its bound, it begins a pass
  in a world where the guard holds; it stops in that world.
\<close>

lemma poll_loop_timeout_iff:
  "poll_loop k c n ci tmo st w = (Some (Inl TimeoutError), w') \<longleftrightarrow>
     (\<exists>j<k. pass_start j c n ci tmo st w = Some w' \<and> timeout_reached tmo (now w' - st))"
proof (induction k arbitrary: w)
  case 0
  show ?case by simp
next
  case (Suc k)
  obtain r w1 where r: "poll_cycle c n ci tmo st w = (r, w1)"
    by (cases "poll_cycle c n ci tmo st w")
  show ?case
  proof (cases "timeout_reached tmo (now w - st)")
    case True
    then have pc: "poll_cycle c n ci tmo st w = (Raised TimeoutError, w)"
      by (rule poll_cycle_timeout)
    then have later: "\<And>j. pass_start (Suc j) c n ci tmo st w = None" by simp
    from pc have "poll_loop (Suc k) c n ci tmo st w = (Some (Inl TimeoutError), w)" by simp
    with True later show ?thesis
      by (auto simp: Ex_less_Suc2)
  next
    case False
    have first: "\<not> (pass_start 0 c n ci tmo st w = Some w' \<and> timeout_reached tmo (now w' - st))"
      using False by auto
    show ?thesis
    proof (cases r)
      case (Raised e)
      with r poll_cycle_not_timeout [OF False, of c n ci w1] have "e \<noteq> TimeoutError" by auto
      with r Raised first show ?thesis by (simp add: Ex_less_Suc2)
    next
      case Finished
      with r first show ?thesis by (simp add: Ex_less_Suc2)
    next
      case Continue
      with r first Suc.IH [of w1] show ?thesis by (auto simp: Ex_less_Suc2)
    qed
  qed
qed

text \<open>Every pass before one that the loop begins was begun with the guard false.\<close>

lemma pass_start_earlier:
  "pass_start j c n ci tmo st w = Some wj \<Longrightarrow> i < j \<Longrightarrow>
     \<exists>wi. pass_start i c n ci tmo st w = Some wi \<and> \<not> timeout_reached tmo (now wi - st)"
proof (induction j arbitrary: w i)
  case 0
  then show ?case by simp
next
  case (Suc j)
  obtain r w1 where r: "poll_cycle c n ci tmo st w = (r, w1)"
    by (cases "poll_cycle c n ci tmo st w")
  with Suc.prems(1) have cont: "r = Continue" by (cases r) simp_all
  with r Suc.prems(1) have rest: "pass_start j c n ci tmo st w1 = Some wj" by simp
  have here: "\<not> timeout_reached tmo (now w - st)"
  proof
    assume "timeout_reached tmo (now w - st)"
    then have "poll_cycle c n ci tmo st w = (Raised TimeoutError, w)" by (rule poll_cycle_timeout)
    with r cont show False by simp
  qed
  show ?case
  proof (cases i)
    case 0
    with here show ?thesis by simp
  next
    case (Suc i')
    with Suc.prems(2) have "i' < j" by simp
    from Suc.IH [OF rest this] obtain wi
      where "pass_start i' c n ci tmo st w1 = Some wi" "\<not> timeout_reached tmo (now wi - st)"
      by blast
    with r cont Suc show ?thesis by simp
  qed
qed

text \<open>
  With every state a string, the loop never ends normally, however many passes it is
  given.
\<close>

lemma poll_loop_string_state:
  assumes "\<And>k mr. mr_get c n k = Inr mr \<Longrightarrow> \<exists>s. state mr = PyStr s"
  shows "fst (poll_loop k c n ci tmo st w) \<noteq> Some (Inr ())"
proof (induction k arbitrary: w)
  case 0
  show ?case by simp
next
  case (Suc k)
  obtain r w1 where r: "poll_cycle c n ci tmo st w = (r, w1)"
    by (cases "poll_cycle c n ci tmo st w")
  have "fst (poll_cycle c n ci tmo st w) \<noteq> Finished"
    using assms by (rule poll_cycle_string_state)
  with r have "r \<noteq> Finished" by simp
  with r Suc.IH [of w1] show ?case by (cases r) simp_all
qed

lemma poll_loop_locked:
  "fst (poll_loop k (steady (snapshot (PyStr ''locked'') None None)) n 10 None st w) = None"
  by (induction k arbitrary: w) (simp_all add: poll_cycle_locked)

text \<open>
  With the state a member of the enumeration the loop does end: on \<open>LOCKE\<close> itself the
  first pass returns.
\<close>

lemma wait_on_enum_member_returns:
  "wait_until_mr_finished (Suc k) (steady (snapshot (PyEnum LOCKE) None None)) (PyInt 7) 10 None world0
     = (Some (Inr ()),
        \<lparr>now = 0, auth_calls = 0, fetches = 2, sleeps = [], logged = [INFO, DEBUG]\<rparr>)"
  by (simp add: wait_until_mr_finished_def poll_cycle_def timeout_reached_def get_mr_steady
        has_merge_conflicts_def logger_def snapshot_def py_in_close_statuses world0_def)

section \<open>The watch\<close>

text \<open>
  Claim C1 asks the watch, run without a timeout and without a conflict, to return on the
  pass that sees a closed, merged or locked merge request. On a merge request whose state
  is the string \<^verbatim>\<open>locked\<close> from the first fetch on, it is still polling after any
  number of passes.
\<close>

theorem wait_on_locked_string_never_returns:
  "fst (wait_until_mr_finished k (steady (snapshot (PyStr ''locked'') None None))
          (PyInt 7) 10 None world0) = None"
  by (simp add: wait_until_mr_finished_def Let_def poll_loop_locked)

text \<open>
  The scenario of the timeout: interval 10, timeout 25, a merge request that stays open.
  Three passes poll at the times 0, 10 and 20 and sleep; the fourth pass, at time 30,
  raises \<^verbatim>\<open>TimeoutError\<close> before it fetches anything, and so does every longer run.
\<close>

lemma scenario_three_polls:
  "wait_until_mr_finished 3 (steady (snapshot (PyStr ''opened'') None None)) (PyInt 7) 10 (Some 25) world0
     = (None, \<lparr>now = 30, auth_calls = 0, fetches = 6, sleeps = [10, 10, 10],
               logged = [INFO, DEBUG, DEBUG, DEBUG]\<rparr>)"
  by (simp add: wait_until_mr_finished_def eval_nat_numeral poll_cycle_opened
        timeout_reached_def logger_def world0_def)

lemma scenario_timeout_on_fourth:
  "wait_until_mr_finished (4 + j) (steady (snapshot (PyStr ''opened'') None None)) (PyInt 7) 10 (Some 25) world0
     = (Some (Inl TimeoutError),
        \<lparr>now = 30, auth_calls = 0, fetches = 6, sleeps = [10, 10, 10],
          logged = [INFO, DEBUG, DEBUG, DEBUG]\<rparr>)"
proof -
  have "poll_loop 4 (steady (snapshot (PyStr ''opened'') None None)) (PyInt 7) 10 (Some 25)
          (now (logger INFO world0)) (logger INFO world0)
        = (Some (Inl TimeoutError),
           \<lparr>now = 30, auth_calls = 0, fetches = 6, sleeps = [10, 10, 10],
             logged = [INFO, DEBUG, DEBUG, DEBUG]\<rparr>)"
    by (simp add: eval_nat_numeral poll_cycle_opened poll_cycle_timeout
          timeout_reached_def logger_def world0_def)
  then show ?thesis
    unfolding wait_until_mr_finished_def Let_def by (rule poll_loop_more_fuel)
qed

text \<open>
  Without a timeout, a watch started at time 100 on a merge request that is open for
  three passes and merged with a conflict afterwards raises the conflict exception in its
  fourth pass, at time 130.
\<close>

lemma conflict_on_fourth_without_timeout:
  "wait_until_mr_finished 4
     (switching 6 (snapshot (PyStr ''opened'') None None)
                  (snapshot (PyEnum MERGE) (Some (PyBool True)) None))
     (PyInt 7) 10 None (world0\<lparr>now := 100\<rparr>)
   = (Some (Inl ConflictException),
      \<lparr>now = 130, auth_calls = 0, fetches = 8, sleeps = [10, 10, 10],
        logged = [INFO, DEBUG, DEBUG, DEBUG, DEBUG, ERROR]\<rparr>)"
  by (simp add: wait_until_mr_finished_def eval_nat_numeral poll_cycle_switching_before
        poll_cycle_switching_after timeout_reached_def logger_def world0_def)

text \<open>
  Claim C2, amended. A watch called in the world \<open>w\<close> with the timeout \<open>t\<close> raises
  \<^verbatim>\<open>TimeoutError\<close> exactly when \<open>t\<close> is not zero and the watch begins a pass at a
  time more than \<open>t\<close> after the time of the call; a timeout of zero never fires. The
  watch stops in the very world in which that pass began: the pass has fetched nothing,
  so the timeout is decided before the conflict check and before the test of the state.
  That pass is the first of its kind, since every pass before it was begun with the
  timeout not exceeded.
\<close>

theorem watch_times_out_on_first_exceeding_pass:
  "(wait_until_mr_finished k c n ci (Some t) w = (Some (Inl TimeoutError), w')
      \<longleftrightarrow> (\<exists>j<k. pass_start j c n ci (Some t) (now w) (logger INFO w) = Some w'
                 \<and> t \<noteq> 0 \<and> t < now w' - now w))
   \<and> (\<forall>j wj. pass_start j c n ci (Some t) (now w) (logger INFO w) = Some wj \<longrightarrow>
         (\<forall>i<j. \<exists>wi. pass_start i c n ci (Some t) (now w) (logger INFO w) = Some wi
                   \<and> \<not> (t \<noteq> 0 \<and> t < now wi - now w)))"
proof -
  have now: "now (logger INFO w) = now w" by (simp add: logger_def)
  have reached: "\<And>e. timeout_reached (Some t) e = (t \<noteq> 0 \<and> t < e)"
    by (simp add: timeout_reached_def)
  have a: "wait_until_mr_finished k c n ci (Some t) w = (Some (Inl TimeoutError), w')
      \<longleftrightarrow> (\<exists>j<k. pass_start j c n ci (Some t) (now w) (logger INFO w) = Some w'
                 \<and> t \<noteq> 0 \<and> t < now w' - now w)"
    using poll_loop_timeout_iff [of k c n ci "Some t" "now w" "logger INFO w" w']
    by (simp add: wait_until_mr_finished_def Let_def now reached)
  have b: "\<forall>j wj. pass_start j c n ci (Some t) (now w) (logger INFO w) = Some wj \<longrightarrow>
         (\<forall>i<j. \<exists>wi. pass_start i c n ci (Some t) (now w) (logger INFO w) = Some wi
                   \<and> \<not> (t \<noteq> 0 \<and> t < now wi - now w))"
    using pass_start_earlier [of _ c n ci "Some t" "now w" "logger INFO w"]
    by (simp add: reached)
  from a b show ?thesis by (rule conjI)
qed

text \<open>
  The same watch as above with a timeout of 25, called at time 100: the passes begin at
  the times 100, 110, 120 and 130, and the fourth raises \<^verbatim>\<open>TimeoutError\<close> with six
  fetches made, although the seventh and eighth would have shown the conflict and the
  merged state. With a timeout of zero the same watch does not raise \<^verbatim>\<open>TimeoutError\<close>.
\<close>

theorem watch_times_out_on_first_exceeding_pass_witness:
  "wait_until_mr_finished 4
     (switching 6 (snapshot (PyStr ''opened'') None None)
                  (snapshot (PyEnum MERGE) (Some (PyBool True)) None))
     (PyInt 7) 10 (Some 25) (world0\<lparr>now := 100\<rparr>)
   = (Some (Inl TimeoutError),
      \<lparr>now = 130, auth_calls = 0, fetches = 6, sleeps = [10, 10, 10],
        logged = [INFO, DEBUG, DEBUG, DEBUG]\<rparr>)
   \<and> pass_start 2
       (switching 6 (snapshot (PyStr ''opened'') None None)
                    (snapshot (PyEnum MERGE) (Some (PyBool True)) None))
       (PyInt 7) 10 (Some 25) 100 (logger INFO (world0\<lparr>now := 100\<rparr>))
     = Some \<lparr>now = 120, auth_calls = 0, fetches = 4, sleeps = [10, 10],
              logged = [INFO, DEBUG, DEBUG]\<rparr>
   \<and> pass_start 3
       (switching 6 (snapshot (PyStr ''opened'') None None)
                    (snapshot (PyEnum MERGE) (Some (PyBool True)) None))
       (PyInt 7) 10 (Some 25) 100 (logger INFO (world0\<lparr>now := 100\<rparr>))
     = Some \<lparr>now = 130, auth_calls = 0, fetches = 6, sleeps = [10, 10, 10],
              logged = [INFO, DEBUG, DEBUG, DEBUG]\<rparr>
   \<and> fst (wait_until_mr_finished 4
       (switching 6 (snapshot (PyStr ''opened'') None None)
                    (snapshot (PyEnum MERGE) (Some (PyBool True)) None))
       (PyInt 7) 10 (Some 0) (world0\<lparr>now := 100\<rparr>)) \<noteq> Some (Inl TimeoutError)"
proof -
  let ?c = "switching 6 (snapshot (PyStr ''opened'') None None)
                        (snapshot (PyEnum MERGE) (Some (PyBool True)) None)"
  let ?w = "world0\<lparr>now := 100\<rparr>"
  let ?w120 = "\<lparr>now = 120, auth_calls = 0, fetches = 4, sleeps = [10, 10],
                 logged = [INFO, DEBUG, DEBUG]\<rparr>"
  let ?w130 = "\<lparr>now = 130, auth_calls = 0, fetches = 6, sleeps = [10, 10, 10],
                 logged = [INFO, DEBUG, DEBUG, DEBUG]\<rparr>"
  have p2: "pass_start 2 ?c (PyInt 7) 10 (Some 25) 100 (logger INFO ?w) = Some ?w120"
    by (simp add: eval_nat_numeral poll_cycle_switching_before timeout_reached_def
          logger_def world0_def)
  have p3: "pass_start 3 ?c (PyInt 7) 10 (Some 25) 100 (logger INFO ?w) = Some ?w130"
    by (simp add: eval_nat_numeral poll_cycle_switching_before timeout_reached_def
          logger_def world0_def)
  have "\<exists>j<4. pass_start j ?c (PyInt 7) 10 (Some 25) (now ?w) (logger INFO ?w) = Some ?w130
               \<and> (25::real) \<noteq> 0 \<and> 25 < now ?w130 - now ?w"
    using p3 by (intro exI [of _ 3]) (simp add: world0_def)
  with watch_times_out_on_first_exceeding_pass [of 4 ?c "PyInt 7" 10 25 ?w ?w130]
  have run: "wait_until_mr_finished 4 ?c (PyInt 7) 10 (Some 25) ?w = (Some (Inl TimeoutError), ?w130)"
    by blast
  have zero: "fst (wait_until_mr_finished 4 ?c (PyInt 7) 10 (Some 0) ?w) \<noteq> Some (Inl TimeoutError)"
    using watch_times_out_on_first_exceeding_pass
            [of 4 ?c "PyInt 7" 10 0 ?w "snd (wait_until_mr_finished 4 ?c (PyInt 7) 10 (Some 0) ?w)"]
    by (cases "wait_until_mr_finished 4 ?c (PyInt 7) 10 (Some 0) ?w") auto
  from run p2 p3 zero show ?thesis by simp
qed

text \<open>
  Claim C2 as it is written fails for a timeout set to zero. With interval 10 and an open
  merge request the first pass ends at time 10; the second pass starts with 10 seconds
  elapsed, more than the timeout of 0, and polls and sleeps again instead of raising.
\<close>

theorem timeout_zero_counterexample:
  "wait_until_mr_finished 1 (steady (snapshot (PyStr ''opened'') None None)) (PyInt 7) 10 (Some 0) world0
     = (None, \<lparr>now = 10, auth_calls = 0, fetches = 2, sleeps = [10], logged = [INFO, DEBUG]\<rparr>)
   \<and> (0::real) < now \<lparr>now = 10, auth_calls = 0, fetches = 2, sleeps = [10], logged = [INFO, DEBUG]\<rparr> - 0
   \<and> poll_cycle (steady (snapshot (PyStr ''opened'') None None)) (PyInt 7) 10 (Some 0) 0
        \<lparr>now = 10, auth_calls = 0, fetches = 2, sleeps = [10], logged = [INFO, DEBUG]\<rparr>
     = (Continue,
        \<lparr>now = 20, auth_calls = 0, fetches = 4, sleeps = [10, 10], logged = [INFO, DEBUG, DEBUG]\<rparr>)"
  by (simp add: wait_until_mr_finished_def poll_cycle_opened timeout_reached_def logger_def world0_def)



text \<open>
  Claim C9. A timeout of zero is the same as no timeout: the two runs of the watch are
  equal, and neither raises \<^verbatim>\<open>TimeoutError\<close>, whatever the number of passes.
\<close>

theorem wait_timeout_zero_is_no_timeout:
  "wait_until_mr_finished k c n ci (Some 0) w = wait_until_mr_finished k c n ci None w
   \<and> fst (wait_until_mr_finished k c n ci (Some 0) w) \<noteq> Some (Inl TimeoutError)"
proof -
  have eq: "wait_until_mr_finished k c n ci (Some 0) w = wait_until_mr_finished k c n ci None w"
    by (simp add: wait_until_mr_finished_def poll_loop_zero)
  have "fst (wait_until_mr_finished k c n ci None w) \<noteq> Some (Inl TimeoutError)"
    using poll_loop_none_not_timeout [of k c n ci "now (logger INFO w)" "logger INFO w"]
    by (cases "poll_loop k c n ci None (now (logger INFO w)) (logger INFO w)")
       (auto simp: wait_until_mr_finished_def Let_def)
  with eq show ?thesis by simp
qed

section \<open>Construction\<close>

text \<open>
  Claim C8. When the authentication made by the constructor raises, the constructor
  raises too, after that single call of \<^verbatim>\<open>auth\<close> and before any project is looked up:
  an \<^verbatim>\<open>Exception\<close> comes out as the \<^verbatim>\<open>ValueError\<close> that carries its text, anything
  else as itself. No client is returned.
\<close>

theorem init_raises_when_auth_fails:
  assumes "auth c url (token_or_environ tok environ) (auth_calls w) = Some r"
  shows "init c environ url tok project_id w =
           (Inl (case r of
                   PyException m \<Rightarrow> ValueError (''Failed to authenticate with GitLab: '' @ m)
                 | PyBaseException m \<Rightarrow> Propagated r),
            w\<lparr>auth_calls := Suc (auth_calls w)\<rparr>)"
  using assms by (cases r) (simp_all add: init_def is_connected_def)

theorem init_raises_when_auth_fails_witness:
  "init (rejecting ''401 Unauthorized'') Map.empty ''https://gitlab.example.com''
     (Some ''glpat-x'') ''group/project'' world0
     = (Inl (ValueError ''Failed to authenticate with GitLab: 401 Unauthorized''),
        \<lparr>now = 0, auth_calls = 1, fetches = 0, sleeps = [], logged = []\<rparr>)"
proof -
  have "auth (rejecting ''401 Unauthorized'') ''https://gitlab.example.com''
          (token_or_environ (Some ''glpat-x'') Map.empty) (auth_calls world0)
        = Some (PyException ''401 Unauthorized'')"
    by (simp add: rejecting_def)
  from init_raises_when_auth_fails [OF this, of "''group/project''"]
  show ?thesis by (simp add: world0_def)
qed

text \<open>
  Claim C10. The token a constructed client holds is the supplied one only when that is
  a non-empty string; for \<^verbatim>\<open>None\<close> and for the empty string it is the value of
  \<^verbatim>\<open>GITLAB_ACCESS_TOKEN\<close> in the environment. It is also the token the
  authentication was made with.
\<close>

theorem init_stores_truthy_token_else_environ:
  assumes "init c environ url tok project_id w = (Inr cl, w')"
  shows "gitlab_access_token cl =
           (if tok \<noteq> None \<and> tok \<noteq> Some [] then tok else environ ''GITLAB_ACCESS_TOKEN'')
         \<and> auth c url (gitlab_access_token cl) (auth_calls w) = None"
  using assms
  by (auto simp: init_def is_connected_def token_or_environ_def Let_def
           split: option.splits sum.splits raised.splits if_splits)

theorem init_stores_truthy_token_else_environ_witness:
  "init (steady (snapshot (PyStr ''opened'') None None)) [''GITLAB_ACCESS_TOKEN'' \<mapsto> ''from-env'']
        ''https://gitlab.example.com'' (Some []) ''group/project'' world0
     = (Inr \<lparr>gitlab_url = ''https://gitlab.example.com'', gitlab_access_token = Some ''from-env'',
             project = ''group/project''\<rparr>,
        \<lparr>now = 0, auth_calls = 1, fetches = 0, sleeps = [], logged = [INFO]\<rparr>)
   \<and> gitlab_access_token
        (projr (fst (init (steady (snapshot (PyStr ''opened'') None None))
           [''GITLAB_ACCESS_TOKEN'' \<mapsto> ''from-env'']
           ''https://gitlab.example.com'' (Some []) ''group/project'' world0)))
     = Some ''from-env''"
proof -
  have run: "init (steady (snapshot (PyStr ''opened'') None None)) [''GITLAB_ACCESS_TOKEN'' \<mapsto> ''from-env'']
        ''https://gitlab.example.com'' (Some []) ''group/project'' world0
     = (Inr \<lparr>gitlab_url = ''https://gitlab.example.com'', gitlab_access_token = Some ''from-env'',
             project = ''group/project''\<rparr>,
        \<lparr>now = 0, auth_calls = 1, fetches = 0, sleeps = [], logged = [INFO]\<rparr>)"
    by (simp add: init_def is_connected_def token_or_environ_def steady_def logger_def world0_def)
  from init_stores_truthy_token_else_environ [OF run] run show ?thesis by simp
qed

end
